theory Spec2Isabelle
  imports Main "HOL-Library.Word"
begin

unbundle bit_operations_syntax

section \<open>Pixels of xcursor_extractor.c\<close>

text \<open>
  \<^verbatim>\<open>XcursorPixel\<close> is a 32-bit unsigned integer and the locals of
  \<^verbatim>\<open>separate_alpha_pixel\<close> are \<^verbatim>\<open>unsigned int\<close>, so both are 32-bit words:
  \<open>+\<close> and \<open>*\<close> wrap, \<open>div\<close> is the unsigned quotient, \<open>drop_bit\<close> is \<^verbatim>\<open>>>\<close>
  and \<open>push_bit\<close> is \<^verbatim>\<open><<\<close>.

  The source is compiled in one of two ways, chosen by
  \<^verbatim>\<open>#if __BYTE_ORDER == __LITTLE_ENDIAN\<close>. The choice is the parameter
  \<open>byte_order\<close> of every function that contains such a conditional.
\<close>

type_synonym XcursorPixel = "32 word"
type_synonym uint = "32 word"

datatype byte_order = LITTLE_ENDIAN | BIG_ENDIAN

subsection \<open>Extracting the components (lines 248-259)\<close>

definition blue_of :: "byte_order \<Rightarrow> XcursorPixel \<Rightarrow> uint" where
  "blue_of bo pixel =
     (case bo of
        LITTLE_ENDIAN \<Rightarrow> pixel AND 0xFF
      | BIG_ENDIAN \<Rightarrow> drop_bit 24 pixel AND 0xFF)"

definition green_of :: "byte_order \<Rightarrow> XcursorPixel \<Rightarrow> uint" where
  "green_of bo pixel =
     (case bo of
        LITTLE_ENDIAN \<Rightarrow> drop_bit 8 pixel AND 0xFF
      | BIG_ENDIAN \<Rightarrow> drop_bit 16 pixel AND 0xFF)"

definition red_of :: "byte_order \<Rightarrow> XcursorPixel \<Rightarrow> uint" where
  "red_of bo pixel =
     (case bo of
        LITTLE_ENDIAN \<Rightarrow> drop_bit 16 pixel AND 0xFF
      | BIG_ENDIAN \<Rightarrow> drop_bit 8 pixel AND 0xFF)"

definition alpha_of :: "byte_order \<Rightarrow> XcursorPixel \<Rightarrow> uint" where
  "alpha_of bo pixel =
     (case bo of
        LITTLE_ENDIAN \<Rightarrow> drop_bit 24 pixel AND 0xFF
      | BIG_ENDIAN \<Rightarrow> pixel AND 0xFF)"

subsection \<open>Separating the pre-multiplied alpha (lines 267-275)\<close>

text \<open>\<^verbatim>\<open>(c * 255 + alpha / 2) / alpha\<close>, only evaluated by the source when \<open>alpha \<noteq> 0\<close>.\<close>

definition unpremultiply :: "uint \<Rightarrow> uint \<Rightarrow> uint" where
  "unpremultiply c alpha = (c * 255 + alpha div 2) div alpha"

text \<open>\<^verbatim>\<open>if (c > 255) c = 255;\<close>\<close>

definition clamp :: "uint \<Rightarrow> uint" where
  "clamp c = (if c > 255 then 255 else c)"

subsection \<open>Reconstructing the pixel (lines 277-282)\<close>

definition reconstruct :: "byte_order \<Rightarrow> uint \<Rightarrow> uint \<Rightarrow> uint \<Rightarrow> uint \<Rightarrow> XcursorPixel" where
  "reconstruct bo alpha red green blue =
     (case bo of
        LITTLE_ENDIAN \<Rightarrow> blue OR push_bit 8 green OR push_bit 16 red OR push_bit 24 alpha
      | BIG_ENDIAN \<Rightarrow> alpha OR push_bit 8 red OR push_bit 16 green OR push_bit 24 blue)"

subsection \<open>The whole function (lines 244-283)\<close>

text \<open>
  The source updates \<^verbatim>\<open>*pixel\<close> in place; the model returns the new value. The early
  return for \<open>alpha = 0\<close> stores 0.
\<close>

definition separate_alpha_pixel :: "byte_order \<Rightarrow> XcursorPixel \<Rightarrow> XcursorPixel" where
  "separate_alpha_pixel bo pixel =
     (let blue = blue_of bo pixel;
          green = green_of bo pixel;
          red = red_of bo pixel;
          alpha = alpha_of bo pixel
      in if alpha = 0 then 0
         else
           let red = unpremultiply red alpha;
               green = unpremultiply green alpha;
               blue = unpremultiply blue alpha;
               red = clamp red;
               green = clamp green;
               blue = clamp blue
           in reconstruct bo alpha red green blue)"


subsection \<open>Re-laying a pixel out\<close>

text \<open>
  Not a function of the source: \<open>relayout from to\<close> reads the four components of a
  pixel the way the variant \<open>from\<close> does and packs them the way the variant \<open>to\<close>
  does. It is used only to compare the two compiled variants.
\<close>

definition relayout :: "byte_order \<Rightarrow> byte_order \<Rightarrow> XcursorPixel \<Rightarrow> XcursorPixel" where
  "relayout from to pixel =
     reconstruct to (alpha_of from pixel) (red_of from pixel) (green_of from pixel)
       (blue_of from pixel)"

section \<open>Images, comments and the environment\<close>

text \<open>
  The fields of libXcursor's \<^verbatim>\<open>XcursorImage\<close> and \<^verbatim>\<open>XcursorComment\<close> that the program
  reads. \<^verbatim>\<open>XcursorImages\<close> (\<^verbatim>\<open>nimage\<close> and the array \<^verbatim>\<open>images\<close>) is a list, whose
  length is \<^verbatim>\<open>nimage\<close>; a null pointer is \<open>None\<close>.
\<close>

record XcursorImage =
  size_img :: uint
  width :: uint
  height :: uint
  xhot :: uint
  yhot :: uint
  delay :: uint
  pixels :: "XcursorPixel list"

record XcursorComment =
  comment_type :: uint
  comment :: string

text \<open>
  What happens inside one call of \<^verbatim>\<open>save_frame_as_png\<close>: which of its four failure
  exits is taken (lines 159-184), or none.
\<close>

datatype png_outcome =
    fopen_fails
  | create_write_struct_fails
  | create_info_struct_fails
  | png_error
  | png_ok

text \<open>
  The answers of the operating system and of the libraries during one run:
  \<^verbatim>\<open>access\<close>, \<^verbatim>\<open>stat\<close> (\<open>None\<close> when it fails, otherwise whether the path is a directory),
  \<^verbatim>\<open>mkdir\<close>, \<^verbatim>\<open>fopen\<close> of the input, \<^verbatim>\<open>XcursorFileLoad\<close> (\<open>None\<close> when it returns 0,
  otherwise the two pointers it stored), \<^verbatim>\<open>fopen\<close> of the info file, and the outcome of
  saving the frame with index \<open>i\<close> (counted from 0).
\<close>

record env =
  access_ok :: bool
  stat_result :: "bool option"
  mkdir_ok :: bool
  fopen_input_ok :: bool
  file_load :: "(XcursorImage list option \<times> XcursorComment list option) option"
  fopen_info_ok :: bool
  png_result :: "nat \<Rightarrow> png_outcome"

text \<open>The lines of \<^verbatim>\<open>cursor_info.txt\<close>, with the arguments of each \<^verbatim>\<open>fprintf\<close>.\<close>

datatype info_line =
    Info_cursor_file string
  | Info_number_of_frames nat
  | Info_blank
  | Info_frame_details
  | Info_columns
  | Info_frame nat uint uint uint uint uint uint uint
  | Info_comments
  | Info_comment uint string

text \<open>
  What a run does to the outside, in order: lines on stdout and stderr (with the
  arguments of the format string), the directory made, the info file written, a frame
  file created by \<^verbatim>\<open>fopen(filename, "wb")\<close> and a frame file completed by
  \<^verbatim>\<open>png_write_end\<close>. The events of \<^verbatim>\<open>save_frame_as_png\<close> carry its \<^verbatim>\<open>frame_num\<close>.
  The source never removes a file, so there is no event for that.
\<close>

datatype event =
    Stdout_usage "string option"
  | Stdout_success string
  | Stdout_found nat
  | Stdout_saved nat uint uint uint uint string
  | Stderr_cannot_read string
  | Stderr_cannot_create_dir string
  | Stderr_not_a_directory string
  | Stderr_mkdir_failed string
  | Stderr_cannot_open string
  | Stderr_not_valid string
  | Stderr_no_images
  | Stderr_cannot_create string
  | Stderr_failed_save nat
  | Dir_created string
  | Info_written string "info_line list"
  | File_created string nat
  | Png_written string nat uint uint "8 word list list"

fun is_stderr :: "event \<Rightarrow> bool" where
  "is_stderr (Stderr_cannot_read _) = True"
| "is_stderr (Stderr_cannot_create_dir _) = True"
| "is_stderr (Stderr_not_a_directory _) = True"
| "is_stderr (Stderr_mkdir_failed _) = True"
| "is_stderr (Stderr_cannot_open _) = True"
| "is_stderr (Stderr_not_valid _) = True"
| "is_stderr Stderr_no_images = True"
| "is_stderr (Stderr_cannot_create _) = True"
| "is_stderr (Stderr_failed_save _) = True"
| "is_stderr _ = False"

text \<open>The events that create or write a frame file or the info file.\<close>

fun writes_file :: "event \<Rightarrow> bool" where
  "writes_file (Info_written _ _) = True"
| "writes_file (File_created _ _) = True"
| "writes_file (Png_written _ _ _ _ _) = True"
| "writes_file _ = False"

text \<open>The frame numbers of the frame files created, and of those completed.\<close>

fun created_frame :: "event \<Rightarrow> nat list" where
  "created_frame (File_created _ n) = [n]"
| "created_frame _ = []"

fun written_frame :: "event \<Rightarrow> nat list" where
  "written_frame (Png_written _ n _ _ _) = [n]"
| "written_frame _ = []"

definition frames_created :: "event list \<Rightarrow> nat list" where
  "frames_created evs = concat (map created_frame evs)"

definition frames_written :: "event list \<Rightarrow> nat list" where
  "frames_written evs = concat (map written_frame evs)"

section \<open>Paths\<close>

text \<open>
  \<^verbatim>\<open>snprintf(buf, sizeof(buf), ...)\<close> with a buffer of 1024 bytes keeps the first 1023
  characters. \<^verbatim>\<open>%03d\<close> of a positive number is its decimal digits, padded with zeros on the
  left to three characters.
\<close>

fun dec :: "nat \<Rightarrow> string" where
  "dec n = (if n < 10 then [char_of (48 + n)] else dec (n div 10) @ [char_of (48 + n mod 10)])"

declare dec.simps [simp del]

definition pad3 :: "string \<Rightarrow> string" where
  "pad3 s = replicate (3 - length s) (CHR ''0'') @ s"

definition info_path :: "string \<Rightarrow> string" where
  "info_path output_dir = take 1023 (output_dir @ ''/cursor_info.txt'')"

definition frame_path :: "string \<Rightarrow> nat \<Rightarrow> string" where
  "frame_path output_dir n = take 1023 (output_dir @ ''/frame_'' @ pad3 (dec n) @ ''.png'')"

section \<open>save_frame_as_png (lines 150-242)\<close>

text \<open>The four bytes stored in the row for one pixel (lines 212-224).\<close>

definition pixel_to_rgba :: "byte_order \<Rightarrow> XcursorPixel \<Rightarrow> 8 word list" where
  "pixel_to_rgba bo pixel =
     (case bo of
        LITTLE_ENDIAN \<Rightarrow>
          [ucast (drop_bit 16 pixel AND 0xFF), ucast (drop_bit 8 pixel AND 0xFF),
           ucast (pixel AND 0xFF), ucast (drop_bit 24 pixel AND 0xFF)]
      | BIG_ENDIAN \<Rightarrow>
          [ucast (drop_bit 8 pixel AND 0xFF), ucast (drop_bit 16 pixel AND 0xFF),
           ucast (drop_bit 24 pixel AND 0xFF), ucast (pixel AND 0xFF)])"

text \<open>
  The conversion loop (lines 203-226). The index \<^verbatim>\<open>y * image->width + x\<close> is computed in
  \<^verbatim>\<open>unsigned int\<close>. The parameter \<^verbatim>\<open>image\<close> is \<open>img\<close> here. libXcursor gives an
  image \<open>width * height\<close> pixels, so the index is in range there.
\<close>

definition png_rows :: "byte_order \<Rightarrow> XcursorImage \<Rightarrow> 8 word list list" where
  "png_rows bo img =
     map (\<lambda>y. concat (map (\<lambda>x.
            pixel_to_rgba bo
              (separate_alpha_pixel bo
                 (pixels img ! unat (word_of_nat y * width img + word_of_nat x :: uint))))
          [0 ..< unat (width img)]))
       [0 ..< unat (height img)]"

definition save_frame_as_png ::
  "byte_order \<Rightarrow> png_outcome \<Rightarrow> XcursorImage \<Rightarrow> string \<Rightarrow> nat \<Rightarrow> int \<times> event list" where
  "save_frame_as_png bo outcome img filename frame_num =
     (case outcome of
        fopen_fails \<Rightarrow> (1, [Stderr_cannot_create filename])
      | create_write_struct_fails \<Rightarrow> (1, [File_created filename frame_num])
      | create_info_struct_fails \<Rightarrow> (1, [File_created filename frame_num])
      | png_error \<Rightarrow> (1, [File_created filename frame_num])
      | png_ok \<Rightarrow>
          (0, [File_created filename frame_num,
               Png_written filename frame_num (width img) (height img) (png_rows bo img)]))"

section \<open>extract_cursor_frames (lines 63-148)\<close>

text \<open>The body of the info file (lines 102-122).\<close>

definition info_lines ::
  "string \<Rightarrow> XcursorImage list \<Rightarrow> XcursorComment list option \<Rightarrow> info_line list" where
  "info_lines input_file images comments =
     [Info_cursor_file input_file, Info_number_of_frames (length images), Info_blank,
      Info_frame_details, Info_columns]
     @ map (\<lambda>i. let img = images ! i
                 in Info_frame (i + 1) (size_img img) (size_img img) (width img) (height img)
                      (xhot img) (yhot img) (delay img))
         [0 ..< length images]
     @ (case comments of
          None \<Rightarrow> []
        | Some cs \<Rightarrow>
            if length cs > 0
            then Info_comments # map (\<lambda>c. Info_comment (comment_type c) (comment c)) cs
            else [])"

text \<open>
  The loop over the frames (lines 127-141), from index \<open>i\<close> on: the first frame that is
  not saved ends it with 1.
\<close>

function extract_loop ::
  "byte_order \<Rightarrow> env \<Rightarrow> string \<Rightarrow> XcursorImage list \<Rightarrow> nat \<Rightarrow> int \<times> event list" where
  "extract_loop bo e output_dir images i =
     (if i < length images then
        let output_path = frame_path output_dir (i + 1);
            saved = save_frame_as_png bo (png_result e i) (images ! i) output_path (i + 1)
        in if fst saved \<noteq> 0 then (1, snd saved @ [Stderr_failed_save (i + 1)])
           else
             let img = images ! i;
                 rest = extract_loop bo e output_dir images (i + 1)
             in (fst rest,
                 snd saved
                 @ [Stdout_saved (i + 1) (width img) (height img) (size_img img) (delay img)
                      output_path]
                 @ snd rest)
      else (0, []))"
  by pat_completeness auto
termination
  by (relation "measure (\<lambda>(bo, e, output_dir, images, i). length images - i)") auto

declare extract_loop.simps [simp del]

definition extract_cursor_frames ::
  "byte_order \<Rightarrow> env \<Rightarrow> string \<Rightarrow> string \<Rightarrow> int \<times> event list" where
  "extract_cursor_frames bo e input_file output_dir =
     (if \<not> fopen_input_ok e then (1, [Stderr_cannot_open input_file])
      else
        case file_load e of
          None \<Rightarrow> (1, [Stderr_not_valid input_file])
        | Some (images_ptr, comments) \<Rightarrow>
            (case images_ptr of
               None \<Rightarrow> (1, [Stderr_no_images])
             | Some images \<Rightarrow>
                 if length images = 0 then (1, [Stderr_no_images])
                 else
                   let info =
                         (if fopen_info_ok e
                          then [Info_written (info_path output_dir)
                                  (info_lines input_file images comments)]
                          else []);
                       frames = extract_loop bo e output_dir images 0
                   in (fst frames, [Stdout_found (length images)] @ info @ snd frames)))"

section \<open>create_directory (lines 285-307) and main (lines 30-61)\<close>

definition create_directory :: "env \<Rightarrow> string \<Rightarrow> int \<times> event list" where
  "create_directory e path =
     (case stat_result e of
        Some is_dir \<Rightarrow> if is_dir then (0, []) else (1, [Stderr_not_a_directory path])
      | None \<Rightarrow> if \<not> mkdir_ok e then (1, [Stderr_mkdir_failed path]) else (0, [Dir_created path]))"

text \<open>\<open>argv\<close> is the whole argument vector, so \<^verbatim>\<open>argc\<close> is its length.\<close>

definition main :: "byte_order \<Rightarrow> env \<Rightarrow> string list \<Rightarrow> int \<times> event list" where
  "main bo e argv =
     (case argv of
        [program_name, input_file, output_dir] \<Rightarrow>
          if \<not> access_ok e then (1, [Stderr_cannot_read input_file])
          else
            let dir = create_directory e output_dir
            in if fst dir \<noteq> 0 then (1, snd dir @ [Stderr_cannot_create_dir output_dir])
               else
                 let result = extract_cursor_frames bo e input_file output_dir
                 in (fst result,
                     snd dir @ snd result
                     @ (if fst result = 0 then [Stdout_success output_dir] else []))
      | _ \<Rightarrow> (1, [Stdout_usage (case argv of [] \<Rightarrow> None | program_name # _ \<Rightarrow> Some program_name)]))"

section \<open>Concrete runs\<close>

text \<open>
  Inputs on which the theorems below are evaluated: a cursor of three frames of one
  pixel each whose second frame cannot be encoded, a cursor of one frame in an output
  directory where the info file cannot be created, and a cursor file that loads with no
  frame.
\<close>

definition one_pixel_image :: XcursorImage where
  "one_pixel_image =
     \<lparr>size_img = 24, width = 1, height = 1, xhot = 0, yhot = 0, delay = 50,
      pixels = [0x80402010]\<rparr>"

definition run_second_frame_fails :: env where
  "run_second_frame_fails =
     \<lparr>access_ok = True, stat_result = Some True, mkdir_ok = True, fopen_input_ok = True,
      file_load = Some (Some [one_pixel_image, one_pixel_image, one_pixel_image], None),
      fopen_info_ok = True,
      png_result = (\<lambda>i. if i = 1 then png_error else png_ok)\<rparr>"

definition run_no_info_file :: env where
  "run_no_info_file =
     \<lparr>access_ok = True, stat_result = Some True, mkdir_ok = True, fopen_input_ok = True,
      file_load = Some (Some [one_pixel_image], None),
      fopen_info_ok = False,
      png_result = (\<lambda>i. png_ok)\<rparr>"

definition run_no_frames :: env where
  "run_no_frames =
     \<lparr>access_ok = True, stat_result = None, mkdir_ok = True, fopen_input_ok = True,
      file_load = Some (Some [], None),
      fopen_info_ok = True,
      png_result = (\<lambda>i. png_ok)\<rparr>"

section \<open>Bytes and words\<close>

text \<open>
  A value obtained by \<open>AND 0xFF\<close> is at most 255; the four bytes packed by
  \<open>reconstruct\<close> are read back by the extraction of the same variant, and the four bytes
  of a word packed again give the word.
\<close>

lemma mask8: "(255 :: uint) = mask 8"
  by (simp add: mask_eq_exp_minus_1)

lemma and_255_le: "(x AND 0xFF :: uint) \<le> 255"
  by (simp add: word_and_le1)

lemma le_255_unat: "c \<le> 255 \<Longrightarrow> unat c < 256" for c :: uint
  by (simp add: word_le_nat_alt)

lemma le_255_take_bit: "c \<le> 255 \<Longrightarrow> take_bit 8 c = c" for c :: uint
proof -
  assume "c \<le> 255"
  then have "c < 2 ^ 8" by unat_arith
  then show ?thesis by (simp add: take_bit_eq_mask less_mask_eq)
qed

lemma channels_le:
  "alpha_of bo p \<le> 255" "red_of bo p \<le> 255" "green_of bo p \<le> 255" "blue_of bo p \<le> 255"
  by (cases bo; simp add: alpha_of_def red_of_def green_of_def blue_of_def and_255_le)+

lemma byte0: "(take_bit 8 b0 OR push_bit 8 (take_bit 8 b1) OR push_bit 16 (take_bit 8 b2)
     OR push_bit 24 (take_bit 8 b3)) AND 0xFF = take_bit 8 b0" for b0 :: uint
  unfolding mask8 by (rule bit_word_eqI) (auto simp: bit_simps)

lemma byte1: "drop_bit 8 (take_bit 8 b0 OR push_bit 8 (take_bit 8 b1) OR push_bit 16 (take_bit 8 b2)
     OR push_bit 24 (take_bit 8 b3)) AND 0xFF = take_bit 8 b1" for b0 :: uint
  unfolding mask8 by (rule bit_word_eqI) (auto simp: bit_simps)

lemma byte2: "drop_bit 16 (take_bit 8 b0 OR push_bit 8 (take_bit 8 b1) OR push_bit 16 (take_bit 8 b2)
     OR push_bit 24 (take_bit 8 b3)) AND 0xFF = take_bit 8 b2" for b0 :: uint
  unfolding mask8 by (rule bit_word_eqI) (auto simp: bit_simps)

lemma byte3: "drop_bit 24 (take_bit 8 b0 OR push_bit 8 (take_bit 8 b1) OR push_bit 16 (take_bit 8 b2)
     OR push_bit 24 (take_bit 8 b3)) AND 0xFF = take_bit 8 b3" for b0 :: uint
  unfolding mask8 by (rule bit_word_eqI) (auto simp: bit_simps)

lemma bytes_join:
  "(p AND 0xFF) OR push_bit 8 (drop_bit 8 p AND 0xFF) OR push_bit 16 (drop_bit 16 p AND 0xFF)
     OR push_bit 24 (drop_bit 24 p AND 0xFF) = p" for p :: uint
  unfolding mask8
proof (rule bit_word_eqI)
  fix n assume n: "n < LENGTH(32)"
  consider "n < 8" | "8 \<le> n" "n < 16" | "16 \<le> n" "n < 24" | "24 \<le> n" by linarith
  then show "bit (p AND mask 8 OR push_bit 8 (drop_bit 8 p AND mask 8)
      OR push_bit 16 (drop_bit 16 p AND mask 8) OR push_bit 24 (drop_bit 24 p AND mask 8)) n
    = bit p n"
    using n by cases (auto simp: bit_simps)
qed

lemma channels_of_reconstruct:
  assumes "a \<le> 255" "r \<le> 255" "g \<le> 255" "b \<le> 255"
  shows "alpha_of bo (reconstruct bo a r g b) = a"
    and "red_of bo (reconstruct bo a r g b) = r"
    and "green_of bo (reconstruct bo a r g b) = g"
    and "blue_of bo (reconstruct bo a r g b) = b"
proof -
  have t: "take_bit 8 a = a" "take_bit 8 r = r" "take_bit 8 g = g" "take_bit 8 b = b"
    using assms by (simp_all add: le_255_take_bit)
  show "alpha_of bo (reconstruct bo a r g b) = a"
    using byte0 [of a r g b] byte3 [of b g r a]
    by (cases bo) (simp_all add: alpha_of_def reconstruct_def t)
  show "red_of bo (reconstruct bo a r g b) = r"
    using byte1 [of a r g b] byte2 [of b g r a]
    by (cases bo) (simp_all add: red_of_def reconstruct_def t)
  show "green_of bo (reconstruct bo a r g b) = g"
    using byte2 [of a r g b] byte1 [of b g r a]
    by (cases bo) (simp_all add: green_of_def reconstruct_def t)
  show "blue_of bo (reconstruct bo a r g b) = b"
    using byte3 [of a r g b] byte0 [of b g r a]
    by (cases bo) (simp_all add: blue_of_def reconstruct_def t)
qed

lemma reconstruct_channels:
  "reconstruct bo (alpha_of bo p) (red_of bo p) (green_of bo p) (blue_of bo p) = p"
proof (cases bo)
  case LITTLE_ENDIAN
  then show ?thesis
    using bytes_join [of p]
    by (simp add: reconstruct_def alpha_of_def red_of_def green_of_def blue_of_def)
next
  case BIG_ENDIAN
  then show ?thesis
    using bytes_join [of p]
    by (simp add: reconstruct_def alpha_of_def red_of_def green_of_def blue_of_def)
qed

lemma channels_of_zero:
  "alpha_of bo 0 = 0" "red_of bo 0 = 0" "green_of bo 0 = 0" "blue_of bo 0 = 0"
  by (cases bo; simp add: alpha_of_def red_of_def green_of_def blue_of_def)+

lemma channels_of_relayout:
  "alpha_of to (relayout from to p) = alpha_of from p"
  "red_of to (relayout from to p) = red_of from p"
  "green_of to (relayout from to p) = green_of from p"
  "blue_of to (relayout from to p) = blue_of from p"
  by (simp_all add: relayout_def channels_of_reconstruct channels_le)

section \<open>The arithmetic of one channel\<close>

text \<open>
  On bytes the 32-bit computation \<open>(c * 255 + alpha div 2) div alpha\<close> does not wrap
  (its numerator is at most \<open>255 * 255 + 127\<close>), so it is the same computation on
  natural numbers.
\<close>

lemma unat_unpremultiply:
  assumes "c \<le> 255" "a \<le> 255"
  shows "unat (unpremultiply c a) = (unat c * 255 + unat a div 2) div unat a"
  using le_255_unat [OF assms(1)] le_255_unat [OF assms(2)]
  by (simp add: unpremultiply_def unat_div unat_word_ariths)

lemma clamp_le: "clamp c \<le> 255"
  by (simp add: clamp_def not_less)

lemma clamp_id: "c \<le> 255 \<Longrightarrow> clamp c = c"
  by (simp add: clamp_def not_less [symmetric])

lemma unat_clamp: "unat (clamp c) = min 255 (unat c)"
  by (simp add: clamp_def word_less_nat_alt min_def)

lemma unat_channel_of_separate:
  assumes "c \<le> 255" "a \<le> 255"
  shows "unat (clamp (unpremultiply c a)) = min 255 ((unat c * 255 + unat a div 2) div unat a)"
  by (simp add: unat_clamp unat_unpremultiply [OF assms])

lemma unpremultiply_premultiplied:
  assumes "a \<le> 255" "a \<noteq> 0" "c \<le> a"
  shows "unpremultiply c a \<le> 255"
proof -
  have c: "c \<le> 255" using assms by simp
  have a: "0 < unat a" using assms(2) by (simp add: unat_gt_0)
  have ca: "unat c \<le> unat a" using assms(3) by (simp add: word_le_nat_alt)
  have "unat c * 255 + unat a div 2 < unat a * 256"
    using a ca by linarith
  then have "(unat c * 255 + unat a div 2) div unat a < 256"
    by (simp add: less_mult_imp_div_less mult.commute)
  then have "unat (unpremultiply c a) \<le> 255"
    by (simp add: unat_unpremultiply [OF c assms(1)])
  then show ?thesis by (simp add: word_le_nat_alt)
qed

lemma unpremultiply_saturated:
  assumes "a \<le> 255" "a \<noteq> 0"
  shows "unpremultiply a a = 255"
proof -
  have a: "0 < unat a" using assms(2) by (simp add: unat_gt_0)
  have "(unat a * 255 + unat a div 2) div unat a = 255"
    using a by (simp add: div_mult_self3 [of "unat a" "unat a div 2" 255] add.commute mult.commute)
  then have "unat (unpremultiply a a) = 255"
    by (simp add: unat_unpremultiply [OF assms(1) assms(1)])
  then show ?thesis by (simp add: word_unat_eq_iff)
qed

lemma unpremultiply_opaque:
  assumes "c \<le> 255"
  shows "unpremultiply c 255 = c"
proof -
  have "unat c < 256" using assms by (rule le_255_unat)
  then have "(unat c * 255 + 127) div 255 = unat c" by simp
  then have "unat (unpremultiply c 255) = unat c"
    by (simp add: unat_unpremultiply [OF assms])
  then show ?thesis by (simp add: word_unat_eq_iff)
qed

section \<open>The two branches of separate_alpha_pixel\<close>

lemma sep_alpha_nonzero:
  "alpha_of bo p \<noteq> 0 \<Longrightarrow>
   separate_alpha_pixel bo p =
     reconstruct bo (alpha_of bo p)
       (clamp (unpremultiply (red_of bo p) (alpha_of bo p)))
       (clamp (unpremultiply (green_of bo p) (alpha_of bo p)))
       (clamp (unpremultiply (blue_of bo p) (alpha_of bo p)))"
  by (simp add: separate_alpha_pixel_def Let_def)

lemma sep_alpha_zero:
  "alpha_of bo p = 0 \<Longrightarrow> separate_alpha_pixel bo p = 0"
  by (simp add: separate_alpha_pixel_def Let_def)

lemma channels_of_separate:
  assumes "alpha_of bo p \<noteq> 0"
  shows "alpha_of bo (separate_alpha_pixel bo p) = alpha_of bo p"
    and "red_of bo (separate_alpha_pixel bo p) = clamp (unpremultiply (red_of bo p) (alpha_of bo p))"
    and "green_of bo (separate_alpha_pixel bo p) = clamp (unpremultiply (green_of bo p) (alpha_of bo p))"
    and "blue_of bo (separate_alpha_pixel bo p) = clamp (unpremultiply (blue_of bo p) (alpha_of bo p))"
  by (simp_all add: sep_alpha_nonzero [OF assms] channels_of_reconstruct channels_le clamp_le)

section \<open>Saving one frame and the loop over the frames\<close>

lemma fst_save_frame_as_png:
  "fst (save_frame_as_png bo outcome img filename n) = (if outcome = png_ok then 0 else 1)"
  by (cases outcome) (simp_all add: save_frame_as_png_def)

lemma written_save_frame_as_png:
  "frames_written (snd (save_frame_as_png bo outcome img filename n)) =
     (if outcome = png_ok then [n] else [])"
  by (cases outcome) (simp_all add: save_frame_as_png_def frames_written_def)

lemma created_save_frame_as_png:
  "frames_created (snd (save_frame_as_png bo outcome img filename n)) =
     (if outcome = fopen_fails then [] else [n])"
  by (cases outcome) (simp_all add: save_frame_as_png_def frames_created_def)

lemma frames_written_append [simp]:
  "frames_written (xs @ ys) = frames_written xs @ frames_written ys"
  by (simp add: frames_written_def)

lemma frames_created_append [simp]:
  "frames_created (xs @ ys) = frames_created xs @ frames_created ys"
  by (simp add: frames_created_def)

lemma frames_written_Cons [simp]:
  "frames_written (x # xs) = written_frame x @ frames_written xs"
  "frames_written [] = []"
  by (simp_all add: frames_written_def)

lemma frames_created_Cons [simp]:
  "frames_created (x # xs) = created_frame x @ frames_created xs"
  "frames_created [] = []"
  by (simp_all add: frames_created_def)

lemma extract_loop_done:
  "\<not> i < length images \<Longrightarrow> extract_loop bo e d images i = (0, [])"
  by (simp add: extract_loop.simps)

lemma extract_loop_fail:
  "i < length images \<Longrightarrow> png_result e i \<noteq> png_ok \<Longrightarrow>
   extract_loop bo e d images i =
     (1, snd (save_frame_as_png bo (png_result e i) (images ! i) (frame_path d (i + 1)) (i + 1))
         @ [Stderr_failed_save (i + 1)])"
  by (subst extract_loop.simps) (simp add: fst_save_frame_as_png Let_def)

lemma extract_loop_step:
  "i < length images \<Longrightarrow> png_result e i = png_ok \<Longrightarrow>
   extract_loop bo e d images i =
     (fst (extract_loop bo e d images (i + 1)),
      snd (save_frame_as_png bo png_ok (images ! i) (frame_path d (i + 1)) (i + 1))
      @ [Stdout_saved (i + 1) (width (images ! i)) (height (images ! i)) (size_img (images ! i))
           (delay (images ! i)) (frame_path d (i + 1))]
      @ snd (extract_loop bo e d images (i + 1)))"
  by (subst extract_loop.simps) (simp add: fst_save_frame_as_png Let_def)

text \<open>
  When the frame with index \<open>i\<close> is the first one from \<open>k\<close> on that is not saved, the
  loop started at \<open>k\<close> returns 1, completes exactly the frames before \<open>i\<close>, creates no
  file for a frame after \<open>i\<close>, and ends with the message about frame \<open>i + 1\<close>.
\<close>

lemma extract_loop_first_failure:
  assumes i: "i < length images" and bad: "png_result e i \<noteq> png_ok"
  shows "k \<le> i \<Longrightarrow> (\<forall>j. k \<le> j \<and> j < i \<longrightarrow> png_result e j = png_ok) \<Longrightarrow>
         fst (extract_loop bo e d images k) = 1
       \<and> frames_written (snd (extract_loop bo e d images k)) = map Suc [k ..< i]
       \<and> frames_created (snd (extract_loop bo e d images k)) =
           map Suc [k ..< i] @ (if png_result e i = fopen_fails then [] else [Suc i])
       \<and> (\<exists>evs. snd (extract_loop bo e d images k) = evs @ [Stderr_failed_save (i + 1)])"
proof (induction k rule: inc_induct)
  case base
  show ?case
    using bad
    by (simp add: extract_loop_fail [OF i bad] written_save_frame_as_png
        created_save_frame_as_png)
next
  case (step n)
  have n: "n < length images" using step.hyps i by simp
  have ok: "png_result e n = png_ok" using step.prems step.hyps by simp
  have rest: "\<forall>j. Suc n \<le> j \<and> j < i \<longrightarrow> png_result e j = png_ok"
    using step.prems by simp
  note ih = step.IH [OF rest]
  from ih obtain evs where
    evs: "snd (extract_loop bo e d images (Suc n)) = evs @ [Stderr_failed_save (i + 1)]"
    by blast
  have "\<exists>evs'. snd (extract_loop bo e d images n) = evs' @ [Stderr_failed_save (i + 1)]"
    by (simp add: extract_loop_step [OF n ok] evs flip: append_assoc del: append_assoc)
  then show ?case
    using ih step.hyps
    by (simp add: extract_loop_step [OF n ok] written_save_frame_as_png
        created_save_frame_as_png upt_conv_Cons)
qed

lemma extract_loop_stderr:
  "fst (extract_loop bo e d images i) \<noteq> 0 \<Longrightarrow>
   filter is_stderr (snd (extract_loop bo e d images i)) \<noteq> []"
proof (induction bo e d images i rule: extract_loop.induct)
  case (1 bo e d images i)
  show ?case
  proof (cases "i < length images")
    case False
    with "1.prems" show ?thesis by (simp add: extract_loop_done)
  next
    case True
    show ?thesis
    proof (cases "png_result e i = png_ok")
      case False
      then show ?thesis by (simp add: extract_loop_fail [OF True])
    next
      case ok: True
      have s: "fst (save_frame_as_png bo (png_result e i) (images ! i) (frame_path d (i + 1)) (i + 1)) = 0"
        by (simp add: fst_save_frame_as_png ok)
      have "fst (extract_loop bo e d images (i + 1)) \<noteq> 0"
        using "1.prems" by (simp add: extract_loop_step [OF True ok])
      with "1.IH" [OF True refl refl _ refl] s show ?thesis
        by (simp add: extract_loop_step [OF True ok])
    qed
  qed
qed

lemma extract_loop_fopen_info:
  "extract_loop bo (e\<lparr>fopen_info_ok := b\<rparr>) d images i = extract_loop bo e d images i"
proof (induction bo e d images i rule: extract_loop.induct)
  case (1 bo e d images i)
  show ?case
  proof (cases "i < length images")
    case False
    then show ?thesis by (simp add: extract_loop_done)
  next
    case True
    show ?thesis
    proof (cases "png_result e i = png_ok")
      case False
      then show ?thesis by (simp add: extract_loop_fail [OF True])
    next
      case ok: True
      have s: "fst (save_frame_as_png bo (png_result e i) (images ! i) (frame_path d (i + 1)) (i + 1)) = 0"
        by (simp add: fst_save_frame_as_png ok)
      from "1.IH" [OF True refl refl _ refl] s show ?thesis
        by (simp add: extract_loop_step [OF True] ok)
    qed
  qed
qed

lemma extract_loop_exit:
  "fst (extract_loop bo e d images k) =
     (if \<forall>i. k \<le> i \<and> i < length images \<longrightarrow> png_result e i = png_ok then 0 else 1)"
proof (induction bo e d images k rule: extract_loop.induct)
  case (1 bo e d images k)
  show ?case
  proof (cases "k < length images")
    case False
    then show ?thesis by (simp add: extract_loop_done)
  next
    case True
    show ?thesis
    proof (cases "png_result e k = png_ok")
      case False
      have "\<not> (\<forall>i. k \<le> i \<and> i < length images \<longrightarrow> png_result e i = png_ok)"
        using True False by blast
      then show ?thesis by (simp add: extract_loop_fail [OF True False])
    next
      case ok: True
      have s: "fst (save_frame_as_png bo (png_result e k) (images ! k) (frame_path d (k + 1))
          (k + 1)) = 0"
        by (simp add: fst_save_frame_as_png ok)
      have "(\<forall>i. k \<le> i \<and> i < length images \<longrightarrow> png_result e i = png_ok)
          \<longleftrightarrow> (\<forall>i. k + 1 \<le> i \<and> i < length images \<longrightarrow> png_result e i = png_ok)"
      proof (intro iffI allI impI)
        fix i
        assume "\<forall>i. k \<le> i \<and> i < length images \<longrightarrow> png_result e i = png_ok"
          and "k + 1 \<le> i \<and> i < length images"
        then show "png_result e i = png_ok" by simp
      next
        fix i
        assume rest: "\<forall>i. k + 1 \<le> i \<and> i < length images \<longrightarrow> png_result e i = png_ok"
          and i: "k \<le> i \<and> i < length images"
        show "png_result e i = png_ok"
        proof (cases "i = k")
          case True
          then show ?thesis by (simp add: ok)
        next
          case False
          with i have "k + 1 \<le> i \<and> i < length images" by simp
          with rest show ?thesis by blast
        qed
      qed
      with "1.IH" [OF True refl refl _ refl] s show ?thesis
        by (simp add: extract_loop_step [OF True ok])
    qed
  qed
qed

lemma extract_loop_quiet:
  "fst (extract_loop bo e d images k) = 0 \<Longrightarrow>
   filter is_stderr (snd (extract_loop bo e d images k)) = []"
proof (induction bo e d images k rule: extract_loop.induct)
  case (1 bo e d images k)
  show ?case
  proof (cases "k < length images")
    case False
    then show ?thesis by (simp add: extract_loop_done)
  next
    case True
    show ?thesis
    proof (cases "png_result e k = png_ok")
      case False
      with "1.prems" show ?thesis by (simp add: extract_loop_fail [OF True False])
    next
      case ok: True
      have s: "fst (save_frame_as_png bo (png_result e k) (images ! k) (frame_path d (k + 1))
          (k + 1)) = 0"
        by (simp add: fst_save_frame_as_png ok)
      have "fst (extract_loop bo e d images (k + 1)) = 0"
        using "1.prems" by (simp add: extract_loop_step [OF True ok])
      with "1.IH" [OF True refl refl _ refl] s show ?thesis
        by (simp add: extract_loop_step [OF True ok] save_frame_as_png_def)
    qed
  qed
qed

section \<open>The whole run\<close>

lemma create_directory_no_file:
  "filter writes_file (snd (create_directory e path)) = []"
  by (simp add: create_directory_def split: option.split)

lemma create_directory_fopen_info:
  "create_directory (e\<lparr>fopen_info_ok := b\<rparr>) path = create_directory e path"
  by (simp add: create_directory_def)

lemma extract_cursor_frames_stderr:
  "fst (extract_cursor_frames bo e input_file output_dir) \<noteq> 0 \<Longrightarrow>
   filter is_stderr (snd (extract_cursor_frames bo e input_file output_dir)) \<noteq> []"
  using extract_loop_stderr [of bo e output_dir _ 0]
  by (simp add: extract_cursor_frames_def Let_def split: option.splits prod.splits if_splits)

lemma extract_cursor_frames_fopen_info:
  "fst (extract_cursor_frames bo (e\<lparr>fopen_info_ok := b\<rparr>) input_file output_dir) =
     fst (extract_cursor_frames bo e input_file output_dir)"
  "filter is_stderr (snd (extract_cursor_frames bo (e\<lparr>fopen_info_ok := b\<rparr>) input_file output_dir)) =
     filter is_stderr (snd (extract_cursor_frames bo e input_file output_dir))"
  by (simp_all add: extract_cursor_frames_def Let_def extract_loop_fopen_info
      split: option.split prod.split)

lemma create_directory_exit:
  "fst (create_directory e path) =
     (if stat_result e = Some True \<or> stat_result e = None \<and> mkdir_ok e then 0 else 1)"
  by (simp add: create_directory_def split: option.split)

lemma create_directory_quiet:
  "fst (create_directory e path) = 0 \<Longrightarrow> filter is_stderr (snd (create_directory e path)) = []"
  by (simp add: create_directory_def split: option.splits if_splits)

lemma extract_cursor_frames_exit:
  "fst (extract_cursor_frames bo e input_file output_dir) =
     (if fopen_input_ok e
         \<and> (\<exists>images comments. file_load e = Some (Some images, comments) \<and> images \<noteq> []
              \<and> (\<forall>i<length images. png_result e i = png_ok))
      then 0 else 1)"
proof (cases "fopen_input_ok e")
  case False
  then show ?thesis by (simp add: extract_cursor_frames_def)
next
  case opened: True
  show ?thesis
  proof (cases "file_load e")
    case None
    then show ?thesis by (simp add: extract_cursor_frames_def)
  next
    case (Some loaded)
    obtain images_ptr comments where loaded: "loaded = (images_ptr, comments)"
      by (cases loaded)
    show ?thesis
    proof (cases images_ptr)
      case None
      then show ?thesis by (simp add: extract_cursor_frames_def Some loaded)
    next
      case (Some images)
      note imgs = this
      show ?thesis
        using extract_loop_exit [of bo e output_dir images 0]
        by (simp add: extract_cursor_frames_def \<open>file_load e = Some loaded\<close> loaded imgs
            opened Let_def)
    qed
  qed
qed

lemma extract_cursor_frames_quiet:
  "fst (extract_cursor_frames bo e input_file output_dir) = 0 \<Longrightarrow>
   filter is_stderr (snd (extract_cursor_frames bo e input_file output_dir)) = []"
  using extract_loop_quiet [of bo e output_dir _ 0]
  by (simp add: extract_cursor_frames_def Let_def split: option.splits prod.splits if_splits)

lemma main_three:
  "main bo e [program_name, input_file, output_dir] =
     (if \<not> access_ok e then (1, [Stderr_cannot_read input_file])
      else if fst (create_directory e output_dir) \<noteq> 0
        then (1, snd (create_directory e output_dir) @ [Stderr_cannot_create_dir output_dir])
      else (fst (extract_cursor_frames bo e input_file output_dir),
            snd (create_directory e output_dir)
            @ snd (extract_cursor_frames bo e input_file output_dir)
            @ (if fst (extract_cursor_frames bo e input_file output_dir) = 0
               then [Stdout_success output_dir] else [])))"
  by (simp add: main_def Let_def)

lemma main_usage:
  "length argv \<noteq> 3 \<Longrightarrow>
   main bo e argv =
     (1, [Stdout_usage (case argv of [] \<Rightarrow> None | program_name # _ \<Rightarrow> Some program_name)])"
  by (auto simp: main_def split: list.split)

lemma length_three:
  assumes "length argv = 3"
  obtains program_name input_file output_dir where "argv = [program_name, input_file, output_dir]"
  using assms by (auto simp: length_Suc_conv numeral_3_eq_3)

section \<open>The claims\<close>

subsection \<open>C1: rounding and clamping\<close>

text \<open>
  Claim C1. For a pixel whose alpha \<open>a\<close> is not 0, in either compiled variant, each
  colour channel of the result is the quotient \<open>(c * 255 + a div 2) div a\<close> of the
  input channel \<open>c\<close>, computed without wrap-around and cut off at 255, and it is found in
  the result at the position it was read from in the input; the alpha is found there
  unchanged.
\<close>

theorem separate_alpha_pixel_rounds_and_clamps:
  assumes "alpha_of bo pixel \<noteq> 0"
  shows "unat (red_of bo (separate_alpha_pixel bo pixel)) =
           min 255 ((unat (red_of bo pixel) * 255 + unat (alpha_of bo pixel) div 2)
                    div unat (alpha_of bo pixel))
       \<and> unat (green_of bo (separate_alpha_pixel bo pixel)) =
           min 255 ((unat (green_of bo pixel) * 255 + unat (alpha_of bo pixel) div 2)
                    div unat (alpha_of bo pixel))
       \<and> unat (blue_of bo (separate_alpha_pixel bo pixel)) =
           min 255 ((unat (blue_of bo pixel) * 255 + unat (alpha_of bo pixel) div 2)
                    div unat (alpha_of bo pixel))
       \<and> alpha_of bo (separate_alpha_pixel bo pixel) = alpha_of bo pixel"
  by (simp only: channels_of_separate [OF assms] unat_channel_of_separate [OF channels_le(2) channels_le(1)]
      unat_channel_of_separate [OF channels_le(3) channels_le(1)]
      unat_channel_of_separate [OF channels_le(4) channels_le(1)] simp_thms)

text \<open>
  The theorem at the little-endian pixel \<open>0x80402010\<close>: alpha 128, and the channels
  64, 32, 16 become 128, 64, 32.
\<close>

theorem separate_alpha_pixel_rounds_and_clamps_witness:
  "alpha_of LITTLE_ENDIAN 0x80402010 \<noteq> 0
   \<and> unat (red_of LITTLE_ENDIAN (separate_alpha_pixel LITTLE_ENDIAN 0x80402010)) = 128
   \<and> unat (green_of LITTLE_ENDIAN (separate_alpha_pixel LITTLE_ENDIAN 0x80402010)) = 64
   \<and> unat (blue_of LITTLE_ENDIAN (separate_alpha_pixel LITTLE_ENDIAN 0x80402010)) = 32
   \<and> alpha_of LITTLE_ENDIAN (separate_alpha_pixel LITTLE_ENDIAN 0x80402010) = 128"
proof -
  have h: "alpha_of LITTLE_ENDIAN 0x80402010 \<noteq> 0"
    by (simp add: alpha_of_def)
  show ?thesis
    using h separate_alpha_pixel_rounds_and_clamps [OF h]
    by (simp add: alpha_of_def red_of_def green_of_def blue_of_def)
qed

subsection \<open>C2: alpha 0\<close>

text \<open>
  Claim C2. A pixel whose alpha is 0 becomes the pixel 0, whatever its colour channels
  are.
\<close>

theorem separate_alpha_pixel_zero_alpha:
  "alpha_of bo pixel = 0 \<Longrightarrow> separate_alpha_pixel bo pixel = 0"
  by (simp add: separate_alpha_pixel_def Let_def)

text \<open>
  The theorem at the little-endian pixel \<open>0x00FFFFFF\<close>.
\<close>

theorem separate_alpha_pixel_zero_alpha_witness:
  "alpha_of LITTLE_ENDIAN 0x00FFFFFF = 0 \<and> separate_alpha_pixel LITTLE_ENDIAN 0x00FFFFFF = 0"
proof -
  have h: "alpha_of LITTLE_ENDIAN 0x00FFFFFF = 0"
    by (simp add: alpha_of_def)
  show ?thesis
    using h separate_alpha_pixel_zero_alpha [OF h] by simp
qed

subsection \<open>C3: saturated pixels\<close>

text \<open>
  Claim C3. For an alpha \<open>a\<close> from 1 to 255, the pixel whose red, green and blue all
  equal \<open>a\<close> becomes the pixel whose red, green and blue are 255 and whose alpha is
  still \<open>a\<close>.
\<close>

theorem separate_alpha_pixel_saturated:
  assumes "1 \<le> a" "a \<le> 255"
    and "alpha_of bo pixel = a" "red_of bo pixel = a" "green_of bo pixel = a"
      "blue_of bo pixel = a"
  shows "red_of bo (separate_alpha_pixel bo pixel) = 255
       \<and> green_of bo (separate_alpha_pixel bo pixel) = 255
       \<and> blue_of bo (separate_alpha_pixel bo pixel) = 255
       \<and> alpha_of bo (separate_alpha_pixel bo pixel) = a"
proof -
  have nz: "a \<noteq> 0" using assms(1) by auto
  then have "alpha_of bo pixel \<noteq> 0" by (simp add: assms(3))
  from channels_of_separate [OF this] show ?thesis
    by (simp add: assms(3-6) unpremultiply_saturated [OF assms(2) nz] clamp_def)
qed

text \<open>
  The theorem at the big-endian pixel \<open>0x40404040\<close>.
\<close>

theorem separate_alpha_pixel_saturated_witness:
  "(1 :: uint) \<le> 0x40 \<and> (0x40 :: uint) \<le> 255
   \<and> alpha_of BIG_ENDIAN 0x40404040 = 0x40 \<and> red_of BIG_ENDIAN 0x40404040 = 0x40
   \<and> green_of BIG_ENDIAN 0x40404040 = 0x40 \<and> blue_of BIG_ENDIAN 0x40404040 = 0x40
   \<and> red_of BIG_ENDIAN (separate_alpha_pixel BIG_ENDIAN 0x40404040) = 255
   \<and> green_of BIG_ENDIAN (separate_alpha_pixel BIG_ENDIAN 0x40404040) = 255
   \<and> blue_of BIG_ENDIAN (separate_alpha_pixel BIG_ENDIAN 0x40404040) = 255
   \<and> alpha_of BIG_ENDIAN (separate_alpha_pixel BIG_ENDIAN 0x40404040) = 0x40"
proof -
  have h: "(1 :: uint) \<le> 0x40" "(0x40 :: uint) \<le> 255"
    "alpha_of BIG_ENDIAN 0x40404040 = 0x40" "red_of BIG_ENDIAN 0x40404040 = 0x40"
    "green_of BIG_ENDIAN 0x40404040 = 0x40" "blue_of BIG_ENDIAN 0x40404040 = 0x40"
    by (simp_all add: alpha_of_def red_of_def green_of_def blue_of_def)
  show ?thesis
    using h separate_alpha_pixel_saturated [OF h] by simp
qed

subsection \<open>C4: opaque pixels\<close>

text \<open>
  Claim C4. A pixel whose alpha is 255 is returned unchanged, bit for bit, whatever its
  colour channels are.
\<close>

theorem separate_alpha_pixel_opaque_identity:
  assumes "alpha_of bo pixel = 255"
  shows "separate_alpha_pixel bo pixel = pixel"
proof -
  have "alpha_of bo pixel \<noteq> 0" by (simp add: assms)
  then have "separate_alpha_pixel bo pixel =
      reconstruct bo (alpha_of bo pixel) (red_of bo pixel) (green_of bo pixel) (blue_of bo pixel)"
    by (simp add: sep_alpha_nonzero assms unpremultiply_opaque channels_le clamp_id)
  then show ?thesis by (simp only: reconstruct_channels)
qed

text \<open>
  The theorem at the little-endian pixel \<open>0xFF123456\<close>.
\<close>

theorem separate_alpha_pixel_opaque_identity_witness:
  "alpha_of LITTLE_ENDIAN 0xFF123456 = 255
   \<and> separate_alpha_pixel LITTLE_ENDIAN 0xFF123456 = 0xFF123456"
proof -
  have h: "alpha_of LITTLE_ENDIAN 0xFF123456 = 255"
    by (simp add: alpha_of_def)
  show ?thesis
    using h separate_alpha_pixel_opaque_identity [OF h] by simp
qed

subsection \<open>C5: the clamp on pre-multiplied input\<close>

text \<open>
  Claim C5. For a pre-multiplied pixel (alpha not 0, no colour channel above the alpha)
  the quotient \<open>(c * 255 + a div 2) div a\<close> of every channel is at most 255, the test
  \<open>c > 255\<close> of the clamp is false for each channel, and the result is the pixel packed
  from the unclamped quotients.
\<close>

theorem clamp_unreachable_when_premultiplied:
  assumes "alpha_of bo pixel \<noteq> 0"
    and "red_of bo pixel \<le> alpha_of bo pixel"
    and "green_of bo pixel \<le> alpha_of bo pixel"
    and "blue_of bo pixel \<le> alpha_of bo pixel"
  shows "\<not> unpremultiply (red_of bo pixel) (alpha_of bo pixel) > 255
       \<and> \<not> unpremultiply (green_of bo pixel) (alpha_of bo pixel) > 255
       \<and> \<not> unpremultiply (blue_of bo pixel) (alpha_of bo pixel) > 255
       \<and> (unat (red_of bo pixel) * 255 + unat (alpha_of bo pixel) div 2)
           div unat (alpha_of bo pixel) \<le> 255
       \<and> (unat (green_of bo pixel) * 255 + unat (alpha_of bo pixel) div 2)
           div unat (alpha_of bo pixel) \<le> 255
       \<and> (unat (blue_of bo pixel) * 255 + unat (alpha_of bo pixel) div 2)
           div unat (alpha_of bo pixel) \<le> 255
       \<and> separate_alpha_pixel bo pixel =
           reconstruct bo (alpha_of bo pixel)
             (unpremultiply (red_of bo pixel) (alpha_of bo pixel))
             (unpremultiply (green_of bo pixel) (alpha_of bo pixel))
             (unpremultiply (blue_of bo pixel) (alpha_of bo pixel))"
proof -
  let ?a = "alpha_of bo pixel"
  have a: "?a \<le> 255" by (rule channels_le)
  have r: "unpremultiply (red_of bo pixel) ?a \<le> 255"
    by (rule unpremultiply_premultiplied [OF a assms(1) assms(2)])
  have g: "unpremultiply (green_of bo pixel) ?a \<le> 255"
    by (rule unpremultiply_premultiplied [OF a assms(1) assms(3)])
  have b: "unpremultiply (blue_of bo pixel) ?a \<le> 255"
    by (rule unpremultiply_premultiplied [OF a assms(1) assms(4)])
  have nr: "(unat (red_of bo pixel) * 255 + unat ?a div 2) div unat ?a \<le> 255"
    using r by (simp add: word_le_nat_alt unat_unpremultiply [OF channels_le(2) a])
  have ng: "(unat (green_of bo pixel) * 255 + unat ?a div 2) div unat ?a \<le> 255"
    using g by (simp add: word_le_nat_alt unat_unpremultiply [OF channels_le(3) a])
  have nb: "(unat (blue_of bo pixel) * 255 + unat ?a div 2) div unat ?a \<le> 255"
    using b by (simp add: word_le_nat_alt unat_unpremultiply [OF channels_le(4) a])
  have s: "separate_alpha_pixel bo pixel =
      reconstruct bo ?a (unpremultiply (red_of bo pixel) ?a)
        (unpremultiply (green_of bo pixel) ?a) (unpremultiply (blue_of bo pixel) ?a)"
    by (simp add: sep_alpha_nonzero [OF assms(1)] clamp_id r g b)
  from r g b nr ng nb s show ?thesis
    by (simp only: not_less simp_thms)
qed

text \<open>
  The theorem at the little-endian pixel \<open>0x80402010\<close>.
\<close>

theorem clamp_unreachable_when_premultiplied_witness:
  "alpha_of LITTLE_ENDIAN 0x80402010 \<noteq> 0
   \<and> red_of LITTLE_ENDIAN 0x80402010 \<le> alpha_of LITTLE_ENDIAN 0x80402010
   \<and> green_of LITTLE_ENDIAN 0x80402010 \<le> alpha_of LITTLE_ENDIAN 0x80402010
   \<and> blue_of LITTLE_ENDIAN 0x80402010 \<le> alpha_of LITTLE_ENDIAN 0x80402010
   \<and> \<not> unpremultiply (red_of LITTLE_ENDIAN 0x80402010) (alpha_of LITTLE_ENDIAN 0x80402010) > 255
   \<and> separate_alpha_pixel LITTLE_ENDIAN 0x80402010 = 0x80804020"
proof -
  have h: "alpha_of LITTLE_ENDIAN 0x80402010 \<noteq> 0"
    "red_of LITTLE_ENDIAN 0x80402010 \<le> alpha_of LITTLE_ENDIAN 0x80402010"
    "green_of LITTLE_ENDIAN 0x80402010 \<le> alpha_of LITTLE_ENDIAN 0x80402010"
    "blue_of LITTLE_ENDIAN 0x80402010 \<le> alpha_of LITTLE_ENDIAN 0x80402010"
    by (simp_all add: alpha_of_def red_of_def green_of_def blue_of_def)
  show ?thesis
    using h clamp_unreachable_when_premultiplied [OF h]
    by (simp add: alpha_of_def red_of_def green_of_def blue_of_def unpremultiply_def
        reconstruct_def)
qed

subsection \<open>C6: the two compiled variants\<close>

text \<open>
  Claim C6, as stated, fails: the two compiled variants are different functions on
  32-bit values. On the pixel \<open>0x000000FF\<close> the little-endian variant reads alpha 0 and
  returns 0, the big-endian variant reads alpha 255 and returns the pixel unchanged.
\<close>

theorem variants_differ_counterexample:
  "separate_alpha_pixel LITTLE_ENDIAN 0x000000FF \<noteq> separate_alpha_pixel BIG_ENDIAN 0x000000FF"
  by (simp add: separate_alpha_pixel_def alpha_of_def red_of_def green_of_def blue_of_def
      unpremultiply_def clamp_def reconstruct_def)

text \<open>
  Claim C6, amended. The two compiled variants read the four components from different
  byte positions and compute the same function on the components: re-laying a pixel out
  from one variant's positions to the other's and then separating the alpha with the
  second variant gives the same pixel as separating with the first variant and then
  re-laying out. Each variant is a function of the 32-bit input alone.
\<close>

theorem variants_agree_on_components:
  "separate_alpha_pixel to (relayout from to pixel) =
     relayout from to (separate_alpha_pixel from pixel)"
proof (cases "alpha_of from pixel = 0")
  case True
  then show ?thesis
    by (simp add: sep_alpha_zero channels_of_relayout)
      (simp add: relayout_def channels_of_zero reconstruct_def split: byte_order.split)
next
  case False
  let ?a = "alpha_of from pixel"
  let ?out = "reconstruct to ?a (clamp (unpremultiply (red_of from pixel) ?a))
      (clamp (unpremultiply (green_of from pixel) ?a))
      (clamp (unpremultiply (blue_of from pixel) ?a))"
  have "alpha_of to (relayout from to pixel) \<noteq> 0"
    using False by (simp add: channels_of_relayout)
  then have lhs: "separate_alpha_pixel to (relayout from to pixel) = ?out"
    by (simp add: sep_alpha_nonzero channels_of_relayout)
  have rhs: "relayout from to (separate_alpha_pixel from pixel) = ?out"
    by (simp add: relayout_def channels_of_separate [OF False])
  show ?thesis by (simp only: lhs rhs)
qed

subsection \<open>C7: the first frame that cannot be saved\<close>

text \<open>
  Claim C7. When \<^verbatim>\<open>save_frame_as_png\<close> returns nonzero for the frame with index \<open>i\<close>
  (and so returned 0 for the frames before it), \<^verbatim>\<open>extract_cursor_frames\<close> returns 1 and
  so does \<^verbatim>\<open>main\<close>; the frames completed are exactly those numbered 1 to \<open>i\<close>, which
  are the frames before index \<open>i\<close>; no file is created for a frame after index \<open>i\<close>
  (for the failing frame itself a file exists unless its \<^verbatim>\<open>fopen\<close> failed); and the last
  thing the extraction does is to report the frame that failed.
\<close>

theorem first_failed_frame_aborts:
  assumes "fopen_input_ok e" and "file_load e = Some (Some images, comments)"
    and "i < length images"
    and "\<forall>j<i. fst (save_frame_as_png bo (png_result e j) (images ! j)
                    (frame_path output_dir (j + 1)) (j + 1)) = 0"
    and "fst (save_frame_as_png bo (png_result e i) (images ! i)
               (frame_path output_dir (i + 1)) (i + 1)) \<noteq> 0"
  shows "fst (extract_cursor_frames bo e input_file output_dir) = 1
       \<and> frames_written (snd (extract_cursor_frames bo e input_file output_dir)) =
           map Suc [0 ..< i]
       \<and> frames_created (snd (extract_cursor_frames bo e input_file output_dir)) =
           map Suc [0 ..< i] @ (if png_result e i = fopen_fails then [] else [Suc i])
       \<and> last (snd (extract_cursor_frames bo e input_file output_dir)) =
           Stderr_failed_save (i + 1)
       \<and> fst (main bo e [program_name, input_file, output_dir]) = 1"
proof -
  have bad: "png_result e i \<noteq> png_ok"
    using assms(5) by (simp add: fst_save_frame_as_png split: if_splits)
  have ok: "\<forall>j. 0 \<le> j \<and> j < i \<longrightarrow> png_result e j = png_ok"
    using assms(4) by (auto simp: fst_save_frame_as_png split: if_splits)
  have ne: "length images \<noteq> 0" using assms(3) by auto
  note loop = extract_loop_first_failure [OF assms(3) bad le0 ok, of bo output_dir]
  from loop obtain evs where
    evs: "snd (extract_loop bo e output_dir images 0) = evs @ [Stderr_failed_save (i + 1)]"
    by blast
  have r: "fst (extract_cursor_frames bo e input_file output_dir) = 1"
    using loop ne by (simp add: extract_cursor_frames_def assms(1,2) Let_def)
  have w: "frames_written (snd (extract_cursor_frames bo e input_file output_dir)) =
      map Suc [0 ..< i]"
    using loop ne by (simp add: extract_cursor_frames_def assms(1,2) Let_def)
  have c: "frames_created (snd (extract_cursor_frames bo e input_file output_dir)) =
      map Suc [0 ..< i] @ (if png_result e i = fopen_fails then [] else [Suc i])"
    using loop ne by (simp add: extract_cursor_frames_def assms(1,2) Let_def)
  have l: "last (snd (extract_cursor_frames bo e input_file output_dir)) =
      Stderr_failed_save (i + 1)"
    using ne by (simp add: extract_cursor_frames_def assms(1,2) Let_def evs)
  have m: "fst (main bo e [program_name, input_file, output_dir]) = 1"
    by (simp add: main_three r)
  from r w c l m show ?thesis by (simp only: simp_thms)
qed

text \<open>
  The theorem on the run of three frames whose second frame fails: frame 1 is written,
  the file of frame 2 is created, frame 3 is not touched.
\<close>

theorem first_failed_frame_aborts_witness:
  "fopen_input_ok run_second_frame_fails
   \<and> file_load run_second_frame_fails =
       Some (Some [one_pixel_image, one_pixel_image, one_pixel_image], None)
   \<and> (1 :: nat) < length [one_pixel_image, one_pixel_image, one_pixel_image]
   \<and> fst (save_frame_as_png LITTLE_ENDIAN (png_result run_second_frame_fails 0)
            ([one_pixel_image, one_pixel_image, one_pixel_image] ! 0)
            (frame_path ''out'' (0 + 1)) (0 + 1)) = 0
   \<and> fst (save_frame_as_png LITTLE_ENDIAN (png_result run_second_frame_fails 1)
            ([one_pixel_image, one_pixel_image, one_pixel_image] ! 1)
            (frame_path ''out'' (1 + 1)) (1 + 1)) \<noteq> 0
   \<and> fst (extract_cursor_frames LITTLE_ENDIAN run_second_frame_fails ''in'' ''out'') = 1
   \<and> frames_written (snd (extract_cursor_frames LITTLE_ENDIAN run_second_frame_fails ''in'' ''out''))
       = [1]
   \<and> frames_created (snd (extract_cursor_frames LITTLE_ENDIAN run_second_frame_fails ''in'' ''out''))
       = [1, 2]
   \<and> fst (main LITTLE_ENDIAN run_second_frame_fails [''xcursor_extractor'', ''in'', ''out'']) = 1"
proof -
  let ?images = "[one_pixel_image, one_pixel_image, one_pixel_image]"
  have h1: "fopen_input_ok run_second_frame_fails"
    by (simp add: run_second_frame_fails_def)
  have h2: "file_load run_second_frame_fails = Some (Some ?images, None)"
    by (simp add: run_second_frame_fails_def)
  have h3: "(1 :: nat) < length ?images" by simp
  have h4: "\<forall>j<1. fst (save_frame_as_png LITTLE_ENDIAN (png_result run_second_frame_fails j)
      (?images ! j) (frame_path ''out'' (j + 1)) (j + 1)) = 0"
    by (simp add: run_second_frame_fails_def save_frame_as_png_def)
  have h5: "fst (save_frame_as_png LITTLE_ENDIAN (png_result run_second_frame_fails 1)
      (?images ! 1) (frame_path ''out'' (1 + 1)) (1 + 1)) \<noteq> 0"
    by (simp add: run_second_frame_fails_def save_frame_as_png_def)
  have p: "png_result run_second_frame_fails 1 \<noteq> fopen_fails"
    by (simp add: run_second_frame_fails_def)
  show ?thesis
    using h1 h2 h3 h4 h5 p
      first_failed_frame_aborts [OF h1 h2 h3 h4 h5, where input_file = "''in''"
        and program_name = "''xcursor_extractor''"]
    by simp
qed

subsection \<open>C8: the info file\<close>

text \<open>
  Claim C8, as stated, fails: in a run where \<^verbatim>\<open>cursor_info.txt\<close> cannot be created and
  the only frame is saved, \<^verbatim>\<open>main\<close> returns 0, nothing is printed on stderr, and the run
  ends with the success message.
\<close>

theorem info_file_failure_is_silent_counterexample:
  "\<not> fopen_info_ok run_no_info_file
   \<and> fst (main LITTLE_ENDIAN run_no_info_file [''xcursor_extractor'', ''in'', ''out'']) = 0
   \<and> filter is_stderr
       (snd (main LITTLE_ENDIAN run_no_info_file [''xcursor_extractor'', ''in'', ''out''])) = []
   \<and> frames_written
       (snd (main LITTLE_ENDIAN run_no_info_file [''xcursor_extractor'', ''in'', ''out''])) = [1]
   \<and> last (snd (main LITTLE_ENDIAN run_no_info_file [''xcursor_extractor'', ''in'', ''out'']))
       = Stdout_success ''out''"
  by (simp add: main_def run_no_info_file_def create_directory_def extract_cursor_frames_def
      extract_loop.simps save_frame_as_png_def Let_def)

text \<open>
  Claim C8, amended. The exit code is 0 exactly when there are three arguments, the
  input is readable, the output directory exists or is made, the input is opened and
  loaded with at least one frame, and every frame is saved; in every other case it is 1.
  A run with three arguments that ends with 1 has printed at least one line on stderr, a
  run that ends with 0 has printed none, and a run with another number of arguments
  prints the usage text and ends with 1. Whether \<^verbatim>\<open>cursor_info.txt\<close> can be created
  changes neither the exit code nor what is printed on stderr: the info file is skipped
  without a message.
\<close>

theorem failures_reported_except_info_file:
  "fst (main bo e argv) =
     (if length argv = 3 \<and> access_ok e
         \<and> (stat_result e = Some True \<or> stat_result e = None \<and> mkdir_ok e)
         \<and> fopen_input_ok e
         \<and> (\<exists>images comments. file_load e = Some (Some images, comments) \<and> images \<noteq> []
              \<and> (\<forall>i<length images. png_result e i = png_ok))
      then 0 else 1)
   \<and> (fst (main bo e argv) \<noteq> 0 \<and> length argv = 3 \<longrightarrow>
        filter is_stderr (snd (main bo e argv)) \<noteq> [])
   \<and> (fst (main bo e argv) = 0 \<longrightarrow> filter is_stderr (snd (main bo e argv)) = [])
   \<and> (length argv \<noteq> 3 \<longrightarrow>
        main bo e argv =
          (1, [Stdout_usage (case argv of [] \<Rightarrow> None | program_name # _ \<Rightarrow> Some program_name)]))
   \<and> fst (main bo (e\<lparr>fopen_info_ok := b\<rparr>) argv) = fst (main bo e argv)
   \<and> filter is_stderr (snd (main bo (e\<lparr>fopen_info_ok := b\<rparr>) argv)) =
       filter is_stderr (snd (main bo e argv))"
proof (cases "length argv = 3")
  case False
  then show ?thesis by (simp add: main_usage)
next
  case True
  then obtain program_name input_file output_dir
    where argv: "argv = [program_name, input_file, output_dir]"
    by (rule length_three)
  have x: "fst (main bo e argv) =
     (if length argv = 3 \<and> access_ok e
         \<and> (stat_result e = Some True \<or> stat_result e = None \<and> mkdir_ok e)
         \<and> fopen_input_ok e
         \<and> (\<exists>images comments. file_load e = Some (Some images, comments) \<and> images \<noteq> []
              \<and> (\<forall>i<length images. png_result e i = png_ok))
      then 0 else 1)"
    by (simp add: argv main_three create_directory_exit
        extract_cursor_frames_exit [of bo e input_file output_dir])
  have a: "fst (main bo (e\<lparr>fopen_info_ok := b\<rparr>) argv) = fst (main bo e argv)"
    by (simp add: argv main_three create_directory_fopen_info extract_cursor_frames_fopen_info)
  have s: "filter is_stderr (snd (main bo (e\<lparr>fopen_info_ok := b\<rparr>) argv)) =
      filter is_stderr (snd (main bo e argv))"
    by (simp add: argv main_three create_directory_fopen_info extract_cursor_frames_fopen_info)
  have t: "fst (main bo e argv) \<noteq> 0 \<longrightarrow> filter is_stderr (snd (main bo e argv)) \<noteq> []"
    using extract_cursor_frames_stderr [of bo e input_file output_dir]
    by (simp add: argv main_three)
  have q: "fst (main bo e argv) = 0 \<longrightarrow> filter is_stderr (snd (main bo e argv)) = []"
    using extract_cursor_frames_quiet [of bo e input_file output_dir]
      create_directory_quiet [of e output_dir]
    by (simp add: argv main_three)
  from x a s t q True show ?thesis by (simp only: simp_thms)
qed

text \<open>
  The theorem on the run whose second frame fails, on the run where the info file cannot
  be created, on the run that loads no frame, and on a run without arguments.
\<close>

theorem failures_reported_except_info_file_witness:
  "fst (main LITTLE_ENDIAN run_second_frame_fails [''xcursor_extractor'', ''in'', ''out'']) = 1
   \<and> filter is_stderr
       (snd (main LITTLE_ENDIAN run_second_frame_fails [''xcursor_extractor'', ''in'', ''out'']))
       \<noteq> []
   \<and> fst (main LITTLE_ENDIAN run_no_info_file [''xcursor_extractor'', ''in'', ''out'']) = 0
   \<and> filter is_stderr
       (snd (main LITTLE_ENDIAN run_no_info_file [''xcursor_extractor'', ''in'', ''out''])) = []
   \<and> fst (main LITTLE_ENDIAN run_no_frames [''xcursor_extractor'', ''in'', ''out'']) = 1
   \<and> main LITTLE_ENDIAN run_second_frame_fails [''xcursor_extractor''] =
       (1, [Stdout_usage (Some ''xcursor_extractor'')])"
proof -
  note t = failures_reported_except_info_file [where bo = LITTLE_ENDIAN and b = True]
  have bad: "\<not> (\<forall>i<length [one_pixel_image, one_pixel_image, one_pixel_image].
      png_result run_second_frame_fails i = png_ok)"
    by (simp add: run_second_frame_fails_def)
  have f: "fst (main LITTLE_ENDIAN run_second_frame_fails [''xcursor_extractor'', ''in'', ''out''])
      = 1"
    using bad t [where e = run_second_frame_fails
        and argv = "[''xcursor_extractor'', ''in'', ''out'']"]
    by (simp add: run_second_frame_fails_def)
  have g: "fst (main LITTLE_ENDIAN run_no_info_file [''xcursor_extractor'', ''in'', ''out'']) = 0"
    using t [where e = run_no_info_file and argv = "[''xcursor_extractor'', ''in'', ''out'']"]
    by (simp add: run_no_info_file_def)
  have h: "fst (main LITTLE_ENDIAN run_no_frames [''xcursor_extractor'', ''in'', ''out'']) = 1"
    using t [where e = run_no_frames and argv = "[''xcursor_extractor'', ''in'', ''out'']"]
    by (simp add: run_no_frames_def)
  show ?thesis
    using f g h
      t [where e = run_second_frame_fails and argv = "[''xcursor_extractor'', ''in'', ''out'']"]
      t [where e = run_no_info_file and argv = "[''xcursor_extractor'', ''in'', ''out'']"]
      t [where e = run_second_frame_fails and argv = "[''xcursor_extractor'']"]
    by simp
qed

subsection \<open>C9: the alpha channel\<close>

text \<open>
  Claim C9. For every pixel, also one whose alpha is 0, the alpha of the result is the
  alpha of the input.
\<close>

theorem separate_alpha_pixel_keeps_alpha:
  "alpha_of bo (separate_alpha_pixel bo pixel) = alpha_of bo pixel"
proof (cases "alpha_of bo pixel = 0")
  case True
  then show ?thesis
    by (simp add: sep_alpha_zero channels_of_zero)
next
  case False
  then show ?thesis by (rule channels_of_separate(1))
qed

subsection \<open>C10: a cursor file without frames\<close>

text \<open>
  Claim C10. When the cursor file is opened and loaded and the image list is null or
  has no frame, \<^verbatim>\<open>extract_cursor_frames\<close> returns 1 after the one message on stderr,
  \<^verbatim>\<open>main\<close> returns 1, and the run creates neither a frame file nor the info file.
\<close>

theorem no_frames_is_failure:
  assumes "fopen_input_ok e" and "file_load e = Some (images_ptr, comments)"
    and "images_ptr = None \<or> images_ptr = Some []"
  shows "extract_cursor_frames bo e input_file output_dir = (1, [Stderr_no_images])
       \<and> fst (main bo e [program_name, input_file, output_dir]) = 1
       \<and> filter writes_file (snd (main bo e [program_name, input_file, output_dir])) = []"
proof -
  have x: "extract_cursor_frames bo e input_file output_dir = (1, [Stderr_no_images])"
    using assms(3) by (auto simp: extract_cursor_frames_def assms(1,2))
  show ?thesis
    by (simp add: x main_three create_directory_no_file)
qed

text \<open>
  The theorem on the run that loads a cursor with no frame.
\<close>

theorem no_frames_is_failure_witness:
  "fopen_input_ok run_no_frames \<and> file_load run_no_frames = Some (Some [], None)
   \<and> extract_cursor_frames BIG_ENDIAN run_no_frames ''in'' ''out'' = (1, [Stderr_no_images])
   \<and> main BIG_ENDIAN run_no_frames [''xcursor_extractor'', ''in'', ''out'']
       = (1, [Dir_created ''out'', Stderr_no_images])"
proof -
  have h1: "fopen_input_ok run_no_frames" by (simp add: run_no_frames_def)
  have h2: "file_load run_no_frames = Some (Some [], None)" by (simp add: run_no_frames_def)
  have h3: "Some [] = (None :: XcursorImage list option) \<or> Some [] = Some ([] :: XcursorImage list)"
    by simp
  show ?thesis
    using h1 h2
      no_frames_is_failure [OF h1 h2 h3, where bo = BIG_ENDIAN and input_file = "''in''"
        and output_dir = "''out''" and program_name = "''xcursor_extractor''"]
    by (simp add: main_three create_directory_def run_no_frames_def)
qed

end
